theory Spec2Isabelle
  imports Complex_Main "HOL-Library.Sublist"
begin

section \<open>Python strings\<close>

text \<open>
  A Python \<open>str\<close> is a sequence of Unicode code points.  The line boundaries and the
  white space that \<open>str.splitlines\<close> and \<open>str.strip\<close> recognise include code points
  above 255, so a string is modelled as a list of code points rather than of 8-bit
  characters.  \<open>str\<close> embeds an ASCII literal.
\<close>

type_synonym pystr = "nat list"

definition str :: "string \<Rightarrow> pystr" where
  "str s = map of_char s"

text \<open>
  The code points at which \<open>str.splitlines\<close> ends a line: LF, VT, FF, CR, FS, GS, RS,
  NEL, LINE SEPARATOR and PARAGRAPH SEPARATOR.
\<close>

definition is_linebreak :: "nat \<Rightarrow> bool" where
  "is_linebreak c \<longleftrightarrow> c \<in> {10, 11, 12, 13, 28, 29, 30, 133, 8232, 8233}"

text \<open>
  \<open>text.splitlines(keepends=True)\<close>: the scan keeps the line read so far in \<open>cur\<close>; a
  line ends after a line boundary, CR LF counting as one boundary, and the terminator
  stays in the line.  Text left after the last boundary is a line of its own.
\<close>

fun splitlines_from :: "pystr \<Rightarrow> pystr \<Rightarrow> pystr list" where
  "splitlines_from cur [] = (if cur = [] then [] else [cur])"
| "splitlines_from cur (c # cs) =
     (if c = 13 \<and> take 1 cs = [10] then (cur @ [13, 10]) # splitlines_from [] (drop 1 cs)
      else if is_linebreak c then (cur @ [c]) # splitlines_from [] cs
      else splitlines_from (cur @ [c]) cs)"

definition splitlines :: "pystr \<Rightarrow> pystr list" where
  "splitlines text = splitlines_from [] text"

section \<open>The chunker\<close>

text \<open>
  The loop of \<open>_chunk_text\<close> over the lines, with its two variables \<open>chunks\<close> and
  \<open>current\<close> passed along.  \<open>max_chars\<close> is a Python \<open>int\<close>.
\<close>

fun chunk_loop :: "int \<Rightarrow> pystr list \<Rightarrow> pystr \<Rightarrow> pystr list \<Rightarrow> pystr list \<times> pystr" where
  "chunk_loop max_chars chunks current [] = (chunks, current)"
| "chunk_loop max_chars chunks current (line # lines) =
     (if int (length current) + int (length line) > max_chars
      then chunk_loop max_chars (chunks @ [current]) ([] @ line) lines
      else chunk_loop max_chars chunks (current @ line) lines)"

definition chunk_text :: "pystr \<Rightarrow> int \<Rightarrow> pystr list" where
  "chunk_text text max_chars =
     (case chunk_loop max_chars [] [] (splitlines text) of
        (chunks, current) \<Rightarrow> if current \<noteq> [] then chunks @ [current] else chunks)"

section \<open>More of Python's string methods\<close>

text \<open>
  The code points that \<open>str.strip\<close> removes when called without an argument, that is
  those for which \<open>str.isspace\<close> holds.
\<close>

definition is_space :: "nat \<Rightarrow> bool" where
  "is_space c \<longleftrightarrow>
     (9 \<le> c \<and> c \<le> 13) \<or> (28 \<le> c \<and> c \<le> 32) \<or> c = 133 \<or> c = 160 \<or> c = 5760 \<or>
     (8192 \<le> c \<and> c \<le> 8202) \<or> c = 8232 \<or> c = 8233 \<or> c = 8239 \<or> c = 8287 \<or> c = 12288"

definition strip :: "pystr \<Rightarrow> pystr" where
  "strip s = rev (dropWhile is_space (rev (dropWhile is_space s)))"

text \<open>
  \<open>s.replace(old, new)\<close>: the occurrences of \<open>old\<close> are found from left to right and do
  not overlap.  With an empty \<open>old\<close>, Python puts \<open>new\<close> before every code point and at
  the end.
\<close>

function replace_scan :: "pystr \<Rightarrow> pystr \<Rightarrow> pystr \<Rightarrow> pystr" where
  "replace_scan old new [] = []"
| "replace_scan old new (c # cs) =
     (if old \<noteq> [] \<and> prefix old (c # cs)
      then new @ replace_scan old new (drop (length old) (c # cs))
      else c # replace_scan old new cs)"
  by pat_completeness auto
termination
  by (relation "measure (\<lambda>(old, new, s). length s)") (auto simp: neq_Nil_conv)

definition replace :: "pystr \<Rightarrow> pystr \<Rightarrow> pystr \<Rightarrow> pystr" where
  "replace s old new =
     (if old = [] then new @ concat (map (\<lambda>c. c # new) s) else replace_scan old new s)"

text \<open>\<open>sep.join(xs)\<close>.\<close>

fun join :: "pystr \<Rightarrow> pystr list \<Rightarrow> pystr" where
  "join sep [] = []"
| "join sep [x] = x"
| "join sep (x # y # ys) = x @ sep @ join sep (y # ys)"

text \<open>\<open>s.split(sep)\<close> for a separator of one code point: empty pieces are kept.\<close>

fun split_on :: "nat \<Rightarrow> pystr \<Rightarrow> pystr list" where
  "split_on sep [] = [[]]"
| "split_on sep (c # cs) =
     (if c = sep then [] # split_on sep cs
      else (c # hd (split_on sep cs)) # tl (split_on sep cs))"

text \<open>\<open>s.rfind(c)\<close> for one code point; \<open>None\<close> stands for Python's \<open>-1\<close>.\<close>

definition rfind :: "pystr \<Rightarrow> nat \<Rightarrow> nat option" where
  "rfind s c =
     (case dropWhile (\<lambda>x. x \<noteq> c) (rev s) of [] \<Rightarrow> None | _ # r \<Rightarrow> Some (length r))"

section \<open>Paths\<close>

text \<open>
  \<open>pathlib.Path\<close> on a POSIX system.  A path is parsed into its root (empty, one slash
  or exactly two slashes) and the list of its components; empty components and \<open>.\<close>
  are dropped.  \<open>stem\<close> is as in CPython up to 3.13; \<open>with_name\<close> refuses a name with
  a separator, as CPython 3.12 and later do.
\<close>

record pure_path =
  proot :: pystr
  parts :: "pystr list"

datatype value_error =
    Target_lang_required
  | No_response
  | Empty_name
  | Invalid_name pystr
  | Embedded_null_byte

datatype exn =
    FileNotFoundError pystr
  | ValueError value_error
  | RemoteCallError pystr
  | UnicodeEncodeError pystr
  | OSError nat pystr

definition Path :: "pystr \<Rightarrow> pure_path" where
  "Path p =
     (let (r, rel) =
        (if take 1 p \<noteq> [47] then ([], p)
         else if take 1 (drop 1 p) \<noteq> [47] \<or> take 1 (drop 2 p) = [47] then ([47], drop 1 p)
         else (take 2 p, drop 2 p))
      in \<lparr>proot = r, parts = filter (\<lambda>x. x \<noteq> [] \<and> x \<noteq> [46]) (split_on 47 rel)\<rparr>)"

definition path_str :: "pure_path \<Rightarrow> pystr" where
  "path_str p =
     (if proot p = [] \<and> parts p = [] then [46] else proot p @ join [47] (parts p))"

definition name :: "pure_path \<Rightarrow> pystr" where
  "name p = (if parts p = [] then [] else last (parts p))"

definition stem :: "pure_path \<Rightarrow> pystr" where
  "stem p =
     (case rfind (name p) 46 of
        None \<Rightarrow> name p
      | Some i \<Rightarrow> if 0 < i \<and> int i < int (length (name p)) - 1 then take i (name p) else name p)"

definition parent :: "pure_path \<Rightarrow> pure_path" where
  "parent p = p\<lparr>parts := butlast (parts p)\<rparr>"

definition with_name :: "pure_path \<Rightarrow> pystr \<Rightarrow> exn + pure_path" where
  "with_name p new_name =
     (if name p = [] then Inl (ValueError Empty_name)
      else if new_name = [] \<or> 47 \<in> set new_name \<or> new_name = [46]
      then Inl (ValueError (Invalid_name new_name))
      else Inr (p\<lparr>parts := butlast (parts p) @ [new_name]\<rparr>))"

section \<open>The remote capability and the world\<close>

text \<open>
  What \<open>client.chat.completions.create\<close> is given and what it returns.  The content of
  a message is a string, absent, or (for the \<open>isinstance\<close> test of the source) some
  other object.  The temperature \<open>0.2\<close> and the delays are kept as rationals.
\<close>

datatype content_value = Str pystr | NotStr

record message_obj =
  content :: "content_value option"

record choice =
  message :: "message_obj option"

record completion =
  choices :: "choice list"

record request =
  model :: pystr
  temperature :: rat
  messages :: "(pystr \<times> pystr) list"

text \<open>
  The lines the program prints, kept structured rather than formatted, and the events
  of a run in the order in which they happen.
\<close>

datatype console_line =
    Reading_file
  | Chunking
  | Total_chunks nat
  | Translating_chunk nat nat pystr
  | Error_on_chunk nat exn
  | Retrying_in_5_seconds
  | Rebuilding_file
  | Done_saved_to pystr
  | Translating_to pystr

datatype event =
    Printed console_line
  | Slept rat
  | Requested request
  | Opened_for_reading pystr
  | Truncated pystr
  | Written pystr pystr

text \<open>
  The world holds the regular files by path, with their decoded text, the answer of the
  operating system to a request to open a path for writing (the \<open>errno\<close> of its
  refusal, if it refuses: a name that is too long, a missing directory, a directory at
  that path, missing rights), and the events so far.  Failures of reading are outside
  the model.  The remote capability is a parameter: it answers a request, knowing the
  requests made before, with an exception or with a response object (\<open>None\<close> for a
  missing one).
\<close>

record world =
  fs :: "pystr \<rightharpoonup> pystr"
  os_refuses :: "pystr \<Rightarrow> nat option"
  trace :: "event list"

type_synonym remote = "request list \<Rightarrow> request \<Rightarrow> exn + completion option"

definition emit :: "event \<Rightarrow> world \<Rightarrow> world" where
  "emit e w = w\<lparr>trace := trace w @ [e]\<rparr>"

fun requests_of :: "event list \<Rightarrow> request list" where
  "requests_of [] = []"
| "requests_of (Requested r # es) = r # requests_of es"
| "requests_of (_ # es) = requests_of es"

fun sleeps_of :: "event list \<Rightarrow> rat list" where
  "sleeps_of [] = []"
| "sleeps_of (Slept d # es) = d # sleeps_of es"
| "sleeps_of (_ # es) = sleeps_of es"


fun writes_of :: "event list \<Rightarrow> (pystr \<times> pystr) list" where
  "writes_of [] = []"
| "writes_of (Written p t # es) = (p, t) # writes_of es"
| "writes_of (_ # es) = writes_of es"




section \<open>Configuration\<close>

definition MODEL :: pystr where
  "MODEL = str ''gpt-4o''"

definition MAX_CHARS_PER_CHUNK :: int where
  "MAX_CHARS_PER_CHUNK = 4500"

definition SLEEP_BETWEEN_CALLS :: rat where
  "SLEEP_BETWEEN_CALLS = 1 / 2"

section \<open>Files\<close>

text \<open>
  \<open>open(path, "r")\<close> reads with universal newlines: CR LF and a lone CR arrive as LF.
\<close>

function universal_newlines :: "pystr \<Rightarrow> pystr" where
  "universal_newlines [] = []"
| "universal_newlines (c # cs) =
     (if c = 13 then 10 # universal_newlines (if take 1 cs = [10] then drop 1 cs else cs)
      else c # universal_newlines cs)"
  by pat_completeness auto
termination
  by (relation "measure length") auto

definition read_file :: "pystr \<Rightarrow> world \<Rightarrow> (exn + pystr) \<times> world" where
  "read_file path w =
     (case fs w path of
        None \<Rightarrow> (Inl (FileNotFoundError path), w)
      | Some t \<Rightarrow> (Inr (universal_newlines t), emit (Opened_for_reading path) w))"

text \<open>
  \<open>open(path, "w", encoding="utf-8")\<close> first encodes the path for the file system: a
  surrogate code point is refused unless it is one of those that stand for a raw byte
  (\<open>U+DC80\<close> to \<open>U+DCFF\<close>).  An encoded path with a zero byte is refused next.
  Then the operating system is asked; when it accepts, the file exists and is empty.
\<close>

definition is_surrogate :: "nat \<Rightarrow> bool" where
  "is_surrogate c \<longleftrightarrow> 55296 \<le> c \<and> c \<le> 57343"

definition fs_encodable :: "nat \<Rightarrow> bool" where
  "fs_encodable c \<longleftrightarrow> c < 55296 \<or> 57343 < c \<or> (56448 \<le> c \<and> c \<le> 56575)"

definition open_for_writing :: "pystr \<Rightarrow> world \<Rightarrow> exn option" where
  "open_for_writing path w =
     (if list_ex (\<lambda>c. \<not> fs_encodable c) path then Some (UnicodeEncodeError path)
      else if 0 \<in> set path then Some (ValueError Embedded_null_byte)
      else case os_refuses w path of
             Some errno \<Rightarrow> Some (OSError errno path)
           | None \<Rightarrow> None)"

text \<open>
  \<open>_write_file\<close>: when the file is open, \<open>f.write(text)\<close> encodes the text as UTF-8,
  which a surrogate code point in it makes fail; the file is then left empty.
\<close>

definition write_file :: "pystr \<Rightarrow> pystr \<Rightarrow> world \<Rightarrow> (exn + unit) \<times> world" where
  "write_file path t w =
     (case open_for_writing path w of
        Some e \<Rightarrow> (Inl e, w)
      | None \<Rightarrow>
          if list_ex is_surrogate t
          then (Inl (UnicodeEncodeError t), emit (Truncated path) (w\<lparr>fs := (fs w)(path \<mapsto> [])\<rparr>))
          else (Inr (), emit (Written path t) (w\<lparr>fs := (fs w)(path \<mapsto> t)\<rparr>)))"

definition sleep :: "rat \<Rightarrow> world \<Rightarrow> world" where
  "sleep d w = emit (Slept d) w"

definition print :: "console_line \<Rightarrow> world \<Rightarrow> world" where
  "print l w = emit (Printed l) w"

section \<open>The translator driver\<close>

definition system_prompt :: "pystr \<Rightarrow> pystr" where
  "system_prompt target_lang =
     str ''Translate the following SRT subtitles into the language corresponding to the international language code: ''
       @ [39] @ target_lang @ [39] @ str ''.'' @ [10]
     @ [10]
     @ str ''IMPORTANT RULES:'' @ [10]
     @ str ''- Translate this SRT into natural, neutral, professional '' @ [39] @ target_lang @ [39] @ [10]
     @ str ''- Keep SRT format EXACTLY'' @ [10]
     @ str ''- Do NOT change timestamps'' @ [10]
     @ str ''- Do NOT merge or split subtitle numbers'' @ [10]
     @ str ''- Do NOT translate Linux system commands, file paths, file names, nor code snippets. Example: this/is/a/path.'' @ [10]
     @ str ''- do NOT translate code terms, product names, commands, or file names. Examples: Keep: ''
       @ [39] @ str ''pip install django'' @ [39] @ str '', Keep: ''
       @ [39] @ str ''python manage.py runserver'' @ [39]
       @ str '', Only translate the explanation around these.'' @ [10]
     @ str ''- Only translate spoken text'' @ [10]
     @ str ''- Keep line breaks'' @ [10]
     @ [10]
     @ str ''Return ONLY the translated SRT.'' @ [10]"

text \<open>The two fence markers that the driver removes: three backticks, alone or before \<open>srt\<close>.\<close>

definition fence :: pystr where
  "fence = [96, 96, 96]"

definition fence_srt :: pystr where
  "fence_srt = [96, 96, 96] @ str ''srt''"

definition clean_content :: "pystr \<Rightarrow> pystr" where
  "clean_content c = strip (replace (replace (strip c) fence_srt []) fence [])"

text \<open>
  The test on the response: every link of \<open>response.choices[0].message.content\<close> has to
  be truthy and the content a string; otherwise \<open>ValueError("No response from OpenAI")\<close>.
\<close>

definition response_text :: "completion option \<Rightarrow> exn + pystr" where
  "response_text response =
     (case response of
        None \<Rightarrow> Inl (ValueError No_response)
      | Some r \<Rightarrow>
          (case choices r of
             [] \<Rightarrow> Inl (ValueError No_response)
           | ch # _ \<Rightarrow>
               (case message ch of
                  None \<Rightarrow> Inl (ValueError No_response)
                | Some m \<Rightarrow>
                    (case content m of
                       None \<Rightarrow> Inl (ValueError No_response)
                     | Some NotStr \<Rightarrow> Inl (ValueError No_response)
                     | Some (Str c) \<Rightarrow>
                         if c = [] then Inl (ValueError No_response)
                         else Inr (clean_content c)))))"

definition chunk_request :: "pystr \<Rightarrow> pystr \<Rightarrow> request" where
  "chunk_request chunk target_lang =
     \<lparr>model = MODEL, temperature = 2 / 10,
      messages = [(str ''system'', system_prompt target_lang), (str ''user'', chunk)]\<rparr>"

definition translate_chunk :: "remote \<Rightarrow> pystr \<Rightarrow> pystr \<Rightarrow> world \<Rightarrow> (exn + pystr) \<times> world" where
  "translate_chunk rc chunk target_lang w =
     (let req = chunk_request chunk target_lang;
          w' = emit (Requested req) w
      in case rc (requests_of (trace w)) req of
           Inl e \<Rightarrow> (Inl e, w')
         | Inr response \<Rightarrow> (response_text response, w'))"

section \<open>The single-language pipeline\<close>

text \<open>
  One turn of the loop over the chunks: the call, and on any exception the message, the
  wait of 5 seconds and the second call, whose exception is not caught.  The pause of
  \<open>SLEEP_BETWEEN_CALLS\<close> follows whenever the turn did not raise.
\<close>

definition translate_turn ::
  "remote \<Rightarrow> pystr \<Rightarrow> nat \<Rightarrow> nat \<Rightarrow> pystr \<Rightarrow> world \<Rightarrow> (exn + pystr) \<times> world" where
  "translate_turn rc target_lang n i chunk w =
     (case translate_chunk rc chunk target_lang (print (Translating_chunk i n target_lang) w) of
        (Inr translated, w1) \<Rightarrow> (Inr translated, sleep SLEEP_BETWEEN_CALLS w1)
      | (Inl e, w1) \<Rightarrow>
          (case translate_chunk rc chunk target_lang
                  (sleep 5 (print Retrying_in_5_seconds (print (Error_on_chunk i e) w1))) of
             (Inr translated, w2) \<Rightarrow> (Inr translated, sleep SLEEP_BETWEEN_CALLS w2)
           | (Inl e2, w2) \<Rightarrow> (Inl e2, w2)))"

fun translate_loop ::
  "remote \<Rightarrow> pystr \<Rightarrow> nat \<Rightarrow> nat \<Rightarrow> pystr list \<Rightarrow> pystr list \<Rightarrow> world \<Rightarrow>
   (exn + pystr list) \<times> world" where
  "translate_loop rc target_lang n i [] translated_chunks w = (Inr translated_chunks, w)"
| "translate_loop rc target_lang n i (chunk # rest) translated_chunks w =
     (case translate_turn rc target_lang n i chunk w of
        (Inl e, w') \<Rightarrow> (Inl e, w')
      | (Inr translated, w') \<Rightarrow>
          translate_loop rc target_lang n (i + 1) rest (translated_chunks @ [translated]) w')"

definition output_name :: "pystr \<Rightarrow> pystr \<Rightarrow> pystr" where
  "output_name target_lang srt_path =
     target_lang @ str ''.'' @ stem (Path srt_path) @ str ''.srt''"

definition translate :: "remote \<Rightarrow> pystr \<Rightarrow> pystr option \<Rightarrow> world \<Rightarrow> (exn + pystr) \<times> world" where
  "translate rc srt_path target_lang w =
     (if fs w srt_path = None then (Inl (FileNotFoundError srt_path), w)
      else case target_lang of
        None \<Rightarrow> (Inl (ValueError Target_lang_required), w)
      | Some lang \<Rightarrow>
          if lang = [] then (Inl (ValueError Target_lang_required), w)
          else
            (case read_file srt_path (print Reading_file w) of
               (Inl e, w1) \<Rightarrow> (Inl e, w1)
             | (Inr original_text, w1) \<Rightarrow>
                 (let chunks = chunk_text original_text MAX_CHARS_PER_CHUNK;
                      w2 = print (Total_chunks (length chunks)) (print Chunking w1)
                  in case translate_loop rc lang (length chunks) 1 chunks [] w2 of
                       (Inl e, w3) \<Rightarrow> (Inl e, w3)
                     | (Inr translated_chunks, w3) \<Rightarrow>
                         (let w4 = print Rebuilding_file w3;
                              final_text = join [10] (map strip translated_chunks)
                          in case with_name (Path srt_path) (output_name lang srt_path) of
                               Inl e \<Rightarrow> (Inl e, w4)
                             | Inr p \<Rightarrow>
                                 (let output_path = path_str p
                                  in case write_file output_path final_text w4 of
                                       (Inl e, w5) \<Rightarrow> (Inl e, w5)
                                     | (Inr _, w5) \<Rightarrow>
                                         (Inr output_path,
                                          print (Done_saved_to output_path) w5))))))"

section \<open>The batch\<close>







section \<open>Sample worlds and remote capabilities\<close>

text \<open>
  Worlds and stubs of the remote capability for the concrete runs below: an operating
  system that refuses no path, a world with no file, a world whose only file is
  \<open>movie.srt\<close>, and a capability that returns no response object.
\<close>

definition refuses_nothing :: "pystr \<Rightarrow> nat option" where
  "refuses_nothing path = None"

definition empty_world :: world where
  "empty_world = \<lparr>fs = Map.empty, os_refuses = refuses_nothing, trace = []\<rparr>"

definition movie_world :: "pystr \<Rightarrow> world" where
  "movie_world t = \<lparr>fs = [str ''movie.srt'' \<mapsto> t], os_refuses = refuses_nothing, trace = []\<rparr>"

definition no_answer :: remote where
  "no_answer history req = Inr None"

text \<open>
  More stubs: a capability that always raises, a response object with a given text, and
  a capability that raises on its first request only.
\<close>

definition always_fails :: remote where
  "always_fails history req = Inl (RemoteCallError (str ''rate limit''))"

definition answer :: "pystr \<Rightarrow> completion option" where
  "answer t = Some \<lparr>choices = [\<lparr>message = Some \<lparr>content = Some (Str t)\<rparr>\<rparr>]\<rparr>"


text \<open>A capability that answers every request with the given text.\<close>

definition replies :: "pystr \<Rightarrow> remote" where
  "replies t history req = Inr (answer t)"

section \<open>Lines\<close>

lemma concat_splitlines_from: "concat (splitlines_from cur s) = cur @ s"
proof (induction cur s rule: splitlines_from.induct)
  case (1 cur)
  show ?case by simp
next
  case (2 cur c cs)
  show ?case
  proof (cases "c = 13 \<and> take 1 cs = [10]")
    case True
    then have "cs = 10 # drop 1 cs" by (cases cs) auto
    with True 2(1) show ?thesis by simp
  next
    case False
    with 2 show ?thesis by auto
  qed
qed

lemma concat_splitlines: "concat (splitlines text) = text"
  by (simp add: splitlines_def concat_splitlines_from)

section \<open>Chunk completeness\<close>

lemma concat_chunk_loop:
  "chunk_loop m chunks current lines = (chunks', current') \<Longrightarrow>
   concat chunks' @ current' = concat chunks @ current @ concat lines"
proof (induction m chunks current lines rule: chunk_loop.induct)
  case (1 m chunks current)
  then show ?case by simp
next
  case (2 m chunks current line lines)
  show ?case
  proof (cases "int (length current) + int (length line) > m")
    case True
    with 2(3) have "chunk_loop m (chunks @ [current]) ([] @ line) lines = (chunks', current')"
      by simp
    from 2(1) [OF True this] show ?thesis by simp
  next
    case False
    with 2(3) have "chunk_loop m chunks (current @ line) lines = (chunks', current')"
      by simp
    from 2(2) [OF False this] show ?thesis by simp
  qed
qed

text \<open>
  Claim C1.  For every text and every budget (positive or not), the chunks returned by
  \<open>_chunk_text\<close>, concatenated in order, are the text itself.
\<close>

theorem chunk_text_concat: "concat (chunk_text text max_chars) = text"
proof -
  obtain chunks current where
    loop: "chunk_loop max_chars [] [] (splitlines text) = (chunks, current)"
    by (cases "chunk_loop max_chars [] [] (splitlines text)")
  from concat_chunk_loop [OF loop] have "concat chunks @ current = text"
    by (simp add: concat_splitlines)
  with loop show ?thesis by (auto simp: chunk_text_def)
qed

section \<open>Chunk size\<close>






section \<open>Empty chunks\<close>

text \<open>
  Claim C3.  The flush inside the loop has no test for an empty buffer, unlike the flush
  after the loop: when the first line alone is longer than the budget, the first chunk
  returned is the empty string.  Here the text is the single line \<open>abcdef\<close> and the
  budget is 3.
\<close>

theorem chunk_text_empty_chunk:
  "chunk_text (str ''abcdef'') 3 = [[], str ''abcdef''] \<and>
   [] \<in> set (chunk_text (str ''abcdef'') 3)"
  by (simp add: chunk_text_def splitlines_def str_def is_linebreak_def)

section \<open>Path components and output names\<close>

lemmas eval_defs = translate_def read_file_def print_def emit_def write_file_def Let_def
  open_for_writing_def refuses_nothing_def fs_encodable_def is_surrogate_def
  movie_world_def empty_world_def str_def with_name_def output_name_def stem_def name_def
  Path_def path_str_def rfind_def chunk_text_def splitlines_def no_answer_def

lemma split_on_not_Nil: "split_on sep s \<noteq> []"
  by (induction s) simp_all

lemma split_on_no_sep: "x \<in> set (split_on sep s) \<Longrightarrow> sep \<notin> set x"
proof (induction s arbitrary: x)
  case Nil
  then show ?case by simp
next
  case (Cons c cs)
  obtain p ps where r: "split_on sep cs = p # ps"
    using split_on_not_Nil [of sep cs] by (cases "split_on sep cs") auto
  show ?case
  proof (cases "c = sep")
    case True
    with Cons show ?thesis by auto
  next
    case False
    with Cons.prems r have "x = c # p \<or> x \<in> set ps" by simp
    then show ?thesis
    proof
      assume "x = c # p"
      moreover have "sep \<notin> set p" using Cons.IH [of p] r by simp
      ultimately show ?thesis using False by simp
    next
      assume "x \<in> set ps"
      then show ?thesis using Cons.IH [of x] r by simp
    qed
  qed
qed

lemma parts_no_sep: "x \<in> set (parts (Path p)) \<Longrightarrow> 47 \<notin> set x \<and> x \<noteq> [] \<and> x \<noteq> [46]"
  by (auto simp: Path_def Let_def split: if_splits dest: split_on_no_sep)






section \<open>Opening and writing\<close>

lemma fs_emit: "fs (emit e w) = fs w"
  by (simp add: emit_def)

lemma trace_emit: "trace (emit e w) = trace w @ [e]"
  by (simp add: emit_def)

lemma fs_print: "fs (print l w) = fs w"
  by (simp add: print_def emit_def)





lemma write_file_success:
  assumes "write_file path t w = (Inr u, w')"
  shows "w' = emit (Written path t) (w\<lparr>fs := (fs w)(path \<mapsto> t)\<rparr>)"
  using assms by (simp add: write_file_def split: option.splits if_splits)

section \<open>Preconditions of the pipeline\<close>

text \<open>
  Claim C6, amended.  The path is tested first: a missing input path gives
  \<open>FileNotFoundError\<close> whatever the language code is; an existing path with an absent or
  empty language code gives \<open>ValueError\<close>.  In both cases the world is returned as it
  was: nothing is read, requested or written.
\<close>

theorem translate_preconditions:
  "(fs w srt_path = None \<longrightarrow>
      translate rc srt_path target_lang w = (Inl (FileNotFoundError srt_path), w)) \<and>
   (fs w srt_path \<noteq> None \<and> (target_lang = None \<or> target_lang = Some []) \<longrightarrow>
      translate rc srt_path target_lang w = (Inl (ValueError Target_lang_required), w))"
  by (auto simp: translate_def)

theorem translate_preconditions_witness:
  "fs empty_world (str ''movie.srt'') = None \<and>
   translate no_answer (str ''movie.srt'') (Some (str ''fr'')) empty_world =
     (Inl (FileNotFoundError (str ''movie.srt'')), empty_world) \<and>
   fs (movie_world []) (str ''movie.srt'') \<noteq> None \<and>
   translate no_answer (str ''movie.srt'') (Some []) (movie_world []) =
     (Inl (ValueError Target_lang_required), movie_world [])"
  using translate_preconditions [of empty_world "str ''movie.srt''" no_answer "Some (str ''fr'')"]
    translate_preconditions [of "movie_world []" "str ''movie.srt''" no_answer "Some []"]
  by (simp add: empty_world_def movie_world_def)


text \<open>
  Claim C6 as stated fails when both tests would fire: with a missing path and no
  language code the error is \<open>FileNotFoundError\<close>, not the \<open>ValueError\<close> of the
  language test.
\<close>

theorem translate_missing_path_first:
  "translate no_answer (str ''movie.srt'') None empty_world =
     (Inl (FileNotFoundError (str ''movie.srt'')), empty_world) \<and>
   fst (translate no_answer (str ''movie.srt'') None empty_world) \<noteq>
     Inl (ValueError Target_lang_required)"
  by (simp add: translate_def empty_world_def)


section \<open>An empty input file\<close>




section \<open>Events and the driver's effect\<close>

lemma requests_of_append: "requests_of (xs @ ys) = requests_of xs @ requests_of ys"
  by (induction xs rule: requests_of.induct) simp_all

lemma writes_of_append: "writes_of (xs @ ys) = writes_of xs @ writes_of ys"
  by (induction xs rule: writes_of.induct) simp_all


lemma sleeps_of_append: "sleeps_of (xs @ ys) = sleeps_of xs @ sleeps_of ys"
  by (induction xs rule: sleeps_of.induct) simp_all


lemma snd_translate_chunk:
  "snd (translate_chunk rc chunk lang w) = emit (Requested (chunk_request chunk lang)) w"
  by (simp add: translate_chunk_def Let_def split: sum.splits)

lemma translate_chunk_world:
  assumes "translate_chunk rc chunk lang w = (r, w')"
  shows "w' = emit (Requested (chunk_request chunk lang)) w"
  using snd_translate_chunk [of rc chunk lang w] assms by simp


section \<open>The retry\<close>



section \<open>What a failed run leaves behind\<close>

lemma translate_existing:
  assumes "fs w srt_path = Some text" and "lang \<noteq> []"
  shows "translate rc srt_path (Some lang) w =
    (case translate_loop rc lang (length (chunk_text (universal_newlines text) MAX_CHARS_PER_CHUNK)) 1
            (chunk_text (universal_newlines text) MAX_CHARS_PER_CHUNK) []
            (print (Total_chunks (length (chunk_text (universal_newlines text) MAX_CHARS_PER_CHUNK)))
              (print Chunking (emit (Opened_for_reading srt_path) (print Reading_file w)))) of
       (Inl e, w3) \<Rightarrow> (Inl e, w3)
     | (Inr translated_chunks, w3) \<Rightarrow>
         (case with_name (Path srt_path) (output_name lang srt_path) of
            Inl e \<Rightarrow> (Inl e, print Rebuilding_file w3)
          | Inr p \<Rightarrow>
              (case write_file (path_str p) (join [10] (map strip translated_chunks))
                      (print Rebuilding_file w3) of
                 (Inl e, w5) \<Rightarrow> (Inl e, w5)
               | (Inr _, w5) \<Rightarrow> (Inr (path_str p), print (Done_saved_to (path_str p)) w5))))"
  using assms
  by (simp add: translate_def read_file_def Let_def fs_print split: prod.split sum.split)

lemma translate_turn_keeps:
  assumes "translate_turn rc lang n i chunk w = (r, w')"
  shows "fs w' = fs w \<and> writes_of (trace w') = writes_of (trace w)"
proof -
  let ?w0 = "print (Translating_chunk i n lang) w"
  obtain r1 w1 where first: "translate_chunk rc chunk lang ?w0 = (r1, w1)"
    by (cases "translate_chunk rc chunk lang ?w0")
  have k1: "fs w1 = fs w \<and> writes_of (trace w1) = writes_of (trace w)"
    by (simp add: translate_chunk_world [OF first] print_def fs_emit trace_emit writes_of_append)
  show ?thesis
  proof (cases r1)
    case (Inr t)
    with assms first have "w' = sleep SLEEP_BETWEEN_CALLS w1"
      by (simp add: translate_turn_def)
    with k1 show ?thesis by (simp add: sleep_def fs_emit trace_emit writes_of_append)
  next
    case (Inl e)
    let ?w1' = "sleep 5 (print Retrying_in_5_seconds (print (Error_on_chunk i e) w1))"
    obtain r2 w2 where second: "translate_chunk rc chunk lang ?w1' = (r2, w2)"
      by (cases "translate_chunk rc chunk lang ?w1'")
    have k2: "fs w2 = fs w \<and> writes_of (trace w2) = writes_of (trace w)"
      using k1
      by (simp add: translate_chunk_world [OF second] print_def sleep_def fs_emit trace_emit
          writes_of_append)
    show ?thesis
    proof (cases r2)
      case (Inr t)
      with assms first second Inl have "w' = sleep SLEEP_BETWEEN_CALLS w2"
        by (simp add: translate_turn_def)
      with k2 show ?thesis by (simp add: sleep_def fs_emit trace_emit writes_of_append)
    next
      case inl2: (Inl e2)
      with assms first second Inl have "w' = w2"
        by (simp add: translate_turn_def)
      with k2 show ?thesis by simp
    qed
  qed
qed

lemma translate_loop_keeps:
  "translate_loop rc lang n i chunks acc w = (r, w') \<Longrightarrow>
   fs w' = fs w \<and> writes_of (trace w') = writes_of (trace w)"
proof (induction chunks arbitrary: i acc w)
  case Nil
  then show ?case by simp
next
  case (Cons chunk rest)
  obtain r1 w1 where turn: "translate_turn rc lang n i chunk w = (r1, w1)"
    by (cases "translate_turn rc lang n i chunk w")
  note k = translate_turn_keeps [OF turn]
  show ?case
  proof (cases r1)
    case (Inl e)
    with Cons.prems turn have "w' = w1" by simp
    with k show ?thesis by simp
  next
    case (Inr t)
    with Cons.prems turn have "translate_loop rc lang n (i + 1) rest (acc @ [t]) w1 = (r, w')"
      by simp
    from Cons.IH [OF this] k show ?thesis by simp
  qed
qed

lemma translate_loop_append:
  "translate_loop rc lang n i xs acc w = (Inr ts, wk) \<Longrightarrow>
   translate_loop rc lang n i (xs @ ys) acc w = translate_loop rc lang n (i + length xs) ys ts wk"
proof (induction xs arbitrary: i acc w)
  case Nil
  then show ?case by simp
next
  case (Cons chunk rest)
  obtain r1 w1 where turn: "translate_turn rc lang n i chunk w = (r1, w1)"
    by (cases "translate_turn rc lang n i chunk w")
  show ?case
  proof (cases r1)
    case (Inl e)
    with Cons.prems turn show ?thesis by simp
  next
    case (Inr t)
    with Cons.prems turn have "translate_loop rc lang n (i + 1) rest (acc @ [t]) w1 = (Inr ts, wk)"
      by simp
    from Cons.IH [OF this] turn Inr show ?thesis by simp
  qed
qed

text \<open>
  Claim C5.  Take a run on an existing file in which the chunks before some chunk were
  translated and for that chunk the driver raises on the first call and again on the
  call after the wait.  Then the pipeline ends with the second exception; the file
  system is as it was before the run and no write has happened.
\<close>

theorem translate_fatal_after_retry:
  assumes exists: "fs w srt_path = Some text" and lang: "lang \<noteq> []"
    and chunks: "chunk_text (universal_newlines text) MAX_CHARS_PER_CHUNK = pre @ chunk # post"
    and pre: "translate_loop rc lang (length (pre @ chunk # post)) 1 pre []
        (print (Total_chunks (length (pre @ chunk # post)))
          (print Chunking (emit (Opened_for_reading srt_path) (print Reading_file w)))) = (Inr ts, wk)"
    and first: "translate_chunk rc chunk lang
        (print (Translating_chunk (1 + length pre) (length (pre @ chunk # post)) lang) wk) = (Inl e1, w1)"
    and second: "translate_chunk rc chunk lang
        (sleep 5 (print Retrying_in_5_seconds (print (Error_on_chunk (1 + length pre) e1) w1))) = (Inl e2, w2)"
  shows "translate rc srt_path (Some lang) w = (Inl e2, w2) \<and> fs w2 = fs w \<and>
    writes_of (trace w2) = writes_of (trace w)"
proof -
  let ?n = "length (pre @ chunk # post)"
  let ?w2 = "print (Total_chunks ?n) (print Chunking (emit (Opened_for_reading srt_path) (print Reading_file w)))"
  have turn: "translate_turn rc lang ?n (1 + length pre) chunk wk = (Inl e2, w2)"
    by (simp only: translate_turn_def first second prod.case sum.case)
  then have "translate_loop rc lang ?n (1 + length pre) (chunk # post) ts wk = (Inl e2, w2)"
    by simp
  with translate_loop_append [OF pre, of "chunk # post"]
  have loop: "translate_loop rc lang ?n 1 (pre @ chunk # post) [] ?w2 = (Inl e2, w2)"
    by simp
  have run: "translate rc srt_path (Some lang) w = (Inl e2, w2)"
    using loop by (simp add: translate_existing [OF exists lang] chunks)
  have "fs w2 = fs ?w2 \<and> writes_of (trace w2) = writes_of (trace ?w2)"
    by (rule translate_loop_keeps [OF loop])
  then have "fs w2 = fs w \<and> writes_of (trace w2) = writes_of (trace w)"
    by (simp add: print_def fs_emit trace_emit writes_of_append)
  with run show ?thesis by simp
qed


theorem translate_fatal_after_retry_witness:
  "fst (translate always_fails (str ''movie.srt'') (Some (str ''fr'')) (movie_world (str ''hello''))) =
     Inl (RemoteCallError (str ''rate limit'')) \<and>
   requests_of (trace (snd (translate always_fails (str ''movie.srt'') (Some (str ''fr''))
     (movie_world (str ''hello''))))) =
     [chunk_request (str ''hello'') (str ''fr''), chunk_request (str ''hello'') (str ''fr'')] \<and>
   writes_of (trace (snd (translate always_fails (str ''movie.srt'') (Some (str ''fr''))
     (movie_world (str ''hello''))))) = [] \<and>
   fs (snd (translate always_fails (str ''movie.srt'') (Some (str ''fr''))
     (movie_world (str ''hello'')))) (str ''fr.movie.srt'') = None"
proof -
  let ?w = "movie_world (str ''hello'')"
  let ?e = "RemoteCallError (str ''rate limit'')"
  let ?req = "chunk_request (str ''hello'') (str ''fr'')"
  let ?wk = "print (Total_chunks (length ([] @ str ''hello'' # [])))
     (print Chunking (emit (Opened_for_reading (str ''movie.srt'')) (print Reading_file ?w)))"
  let ?w1 = "emit (Requested ?req)
     (print (Translating_chunk (1 + length ([]::pystr list)) (length ([] @ str ''hello'' # [])) (str ''fr'')) ?wk)"
  let ?w2 = "emit (Requested ?req)
     (sleep 5 (print Retrying_in_5_seconds (print (Error_on_chunk (1 + length ([]::pystr list)) ?e) ?w1)))"
  have h1: "fs ?w (str ''movie.srt'') = Some (str ''hello'')"
    by (simp add: movie_world_def)
  have h2: "str ''fr'' \<noteq> []" by (simp add: str_def)
  have h3: "chunk_text (universal_newlines (str ''hello'')) MAX_CHARS_PER_CHUNK = [] @ str ''hello'' # []"
    by (simp add: chunk_text_def splitlines_def str_def is_linebreak_def MAX_CHARS_PER_CHUNK_def)
  have h4: "translate_loop always_fails (str ''fr'') (length ([] @ str ''hello'' # [])) 1 [] [] ?wk = (Inr [], ?wk)"
    by simp
  have h5: "translate_chunk always_fails (str ''hello'') (str ''fr'')
      (print (Translating_chunk (1 + length ([]::pystr list)) (length ([] @ str ''hello'' # [])) (str ''fr'')) ?wk) = (Inl ?e, ?w1)"
    by (simp add: translate_chunk_def Let_def always_fails_def)
  have h6: "translate_chunk always_fails (str ''hello'') (str ''fr'')
      (sleep 5 (print Retrying_in_5_seconds (print (Error_on_chunk (1 + length ([]::pystr list)) ?e) ?w1))) = (Inl ?e, ?w2)"
    by (simp add: translate_chunk_def Let_def always_fails_def)
  note r = translate_fatal_after_retry [OF h1 h2 h3 h4 h5 h6]
  from r have a: "fst (translate always_fails (str ''movie.srt'') (Some (str ''fr'')) ?w) = Inl ?e"
    by simp
  from r have b: "requests_of (trace (snd (translate always_fails (str ''movie.srt'') (Some (str ''fr'')) ?w))) =
     [?req, ?req]"
    by (simp add: print_def sleep_def trace_emit requests_of_append movie_world_def)
  from r have c: "writes_of (trace (snd (translate always_fails (str ''movie.srt'') (Some (str ''fr'')) ?w))) = []"
    by (simp add: movie_world_def)
  from r have d: "fs (snd (translate always_fails (str ''movie.srt'') (Some (str ''fr'')) ?w)) (str ''fr.movie.srt'') = None"
    by (simp add: movie_world_def str_def)
  from a b c d show ?thesis by (intro conjI)
qed

section \<open>Cleaning the response\<close>

lemma strip_leading: "\<forall>x \<in> set ws. is_space x \<Longrightarrow> strip (ws @ s) = strip s"
  by (simp add: strip_def dropWhile_append2)

lemma strip_outer:
  assumes "\<forall>x \<in> set ws1. is_space x" and "\<forall>x \<in> set ws2. is_space x"
    and "s \<noteq> []" and "\<not> is_space (hd s)" and "\<not> is_space (last s)"
  shows "strip (ws1 @ s @ ws2) = s"
proof -
  have a: "dropWhile is_space (ws1 @ s @ ws2) = s @ ws2"
    using assms(1,3,4) by (cases s) (simp_all add: dropWhile_append2)
  have b: "dropWhile is_space (rev s) = rev s"
    using assms(5) by (simp only: dropWhile_eq_self_iff hd_rev) simp
  have "dropWhile is_space (rev ws2 @ rev s) = dropWhile is_space (rev s)"
    by (rule dropWhile_append2) (use assms(2) in simp)
  with a b show ?thesis by (simp add: strip_def)
qed

lemma strip_fixed: "dropWhile is_space (strip s) = strip s"
proof (cases "strip s = []")
  case True
  then show ?thesis by simp
next
  case False
  let ?y = "dropWhile is_space s"
  let ?z = "dropWhile is_space (rev ?y)"
  have s: "strip s = rev ?z" by (simp add: strip_def)
  have "?y = rev (takeWhile is_space (rev ?y) @ ?z)"
    by (simp only: takeWhile_dropWhile_id rev_rev_ident)
  then have y: "?y = strip s @ rev (takeWhile is_space (rev ?y))"
    by (simp only: rev_append s)
  have "?y \<noteq> []"
  proof
    assume e: "?y = []"
    have "strip s = rev (dropWhile is_space (rev ?y))" by (simp only: strip_def)
    also have "\<dots> = []" by (simp only: e) simp
    finally show False using False by simp
  qed
  then have "\<not> is_space (hd ?y)" by (rule hd_dropWhile)
  moreover from y False have "hd ?y = hd (strip s)" by (metis hd_append2)
  ultimately have "\<not> is_space (hd (strip s))" by simp
  then show ?thesis by (simp only: dropWhile_eq_self_iff) simp
qed

lemma strip_strip: "strip (strip s) = strip s"
proof -
  have "strip (strip s) = rev (dropWhile is_space (rev (strip s)))"
    by (simp add: strip_def [of "strip s"] strip_fixed)
  also have "rev (strip s) = dropWhile is_space (rev (dropWhile is_space s))"
    by (simp add: strip_def)
  finally show ?thesis by (simp add: strip_def)
qed

lemma set_strip: "set (strip s) \<subseteq> set s"
proof
  fix x assume "x \<in> set (strip s)"
  then have "x \<in> set (dropWhile is_space (rev (dropWhile is_space s)))" by (simp add: strip_def)
  then have "x \<in> set (rev (dropWhile is_space s))" by (rule set_dropWhileD)
  then have "x \<in> set (dropWhile is_space s)" by simp
  then show "x \<in> set s" by (rule set_dropWhileD)
qed

lemma replace_scan_absent: "old \<noteq> [] \<Longrightarrow> hd old \<notin> set s \<Longrightarrow> replace_scan old new s = s"
proof (induction s)
  case Nil
  then show ?case by simp
next
  case (Cons c cs)
  from Cons.prems have "\<not> prefix old (c # cs)" by (cases old) auto
  with Cons show ?case by simp
qed

lemma replace_scan_fence_srt_end:
  "96 \<notin> set b \<Longrightarrow> replace_scan fence_srt [] (b @ fence) = b @ fence"
proof (induction b)
  case Nil
  show ?case by (simp add: fence_def fence_srt_def str_def)
next
  case (Cons c cs)
  then have "\<not> prefix fence_srt (c # cs @ fence)" by (auto simp: fence_srt_def)
  with Cons show ?case by simp
qed

lemma replace_scan_fence_end:
  "96 \<notin> set b \<Longrightarrow> replace_scan fence [] (b @ fence) = b"
proof (induction b)
  case Nil
  show ?case by (simp add: fence_def)
next
  case (Cons c cs)
  then have "\<not> prefix fence (c # cs @ fence)" by (auto simp: fence_def)
  with Cons show ?case by simp
qed

lemma clean_content_plain:
  assumes "96 \<notin> set c"
  shows "clean_content c = strip c"
proof -
  from assms set_strip [of c] have a: "96 \<notin> set (strip c)" by blast
  have "replace (strip c) fence_srt [] = strip c"
    using a by (simp add: replace_def replace_scan_absent fence_srt_def)
  moreover have "replace (strip c) fence [] = strip c"
    using a by (simp add: replace_def replace_scan_absent fence_def)
  ultimately show ?thesis by (simp add: clean_content_def strip_strip)
qed

lemma scan_srt_rest:
  assumes "96 \<notin> set b"
  shows "replace_scan [96, 96, 96, 115, 114, 116] [] (b @ [96, 96, 96]) = b @ [96, 96, 96]"
  using replace_scan_fence_srt_end [OF assms] by (simp add: fence_def fence_srt_def str_def)

lemma scan_fence_rest:
  assumes "96 \<notin> set b"
  shows "replace_scan [96, 96, 96] [] (b @ [96, 96, 96]) = b"
  using replace_scan_fence_end [OF assms] by (simp add: fence_def)

lemma replace_fenced:
  assumes "96 \<notin> set body"
  shows "replace (replace (fence @ str ''srt'' @ [10] @ body @ fence) fence_srt []) fence [] = 10 # body"
    and "replace (replace (fence @ [] @ [10] @ body @ fence) fence_srt []) fence [] = 10 # body"
  by (simp_all add: replace_def fence_def fence_srt_def str_def
      scan_srt_rest [OF assms] scan_fence_rest [OF assms])

lemma clean_content_fenced:
  assumes ws: "\<forall>x \<in> set ws1. is_space x" "\<forall>x \<in> set ws2. is_space x"
    and tag: "tag = [] \<or> tag = str ''srt''" and body: "96 \<notin> set body"
  shows "clean_content (ws1 @ fence @ tag @ [10] @ body @ fence @ ws2) = strip body"
proof -
  let ?x = "fence @ tag @ [10] @ body @ fence"
  have "strip (ws1 @ ?x @ ws2) = ?x"
    by (rule strip_outer [OF ws]) (simp_all add: fence_def is_space_def)
  then have s: "strip (ws1 @ fence @ tag @ [10] @ body @ fence @ ws2) = ?x" by simp
  from tag replace_fenced [OF body]
  have "replace (replace ?x fence_srt []) fence [] = [10] @ body" by auto
  moreover have "strip ([10] @ body) = strip body"
    by (rule strip_leading) (simp add: is_space_def)
  ultimately show ?thesis by (simp only: clean_content_def s)
qed


text \<open>
  Claim C8, amended.  For a response whose content is a non-empty string the driver
  returns that string stripped of outer white space, with every \<open>```srt\<close> and then
  every \<open>```\<close> removed wherever it stands, and stripped again.  So a content without
  backticks is returned stripped of its outer white space, and a content made of a fence
  (three backticks, alone or followed by \<open>srt\<close>), a line feed, a body without
  backticks and three backticks, with white space around it or not, is returned as the
  stripped body.
\<close>

theorem translate_chunk_cleaning:
  assumes "rc (requests_of (trace w)) (chunk_request chunk lang) = Inr (Some r)"
    and "choices r = ch # others" and "message ch = Some m" and "content m = Some (Str c)"
    and "c \<noteq> []"
  shows "fst (translate_chunk rc chunk lang w) = Inr (clean_content c) \<and>
    (96 \<notin> set c \<longrightarrow> fst (translate_chunk rc chunk lang w) = Inr (strip c)) \<and>
    (\<forall>ws1 ws2 tag body.
       c = ws1 @ fence @ tag @ [10] @ body @ fence @ ws2 \<and>
       (\<forall>x \<in> set ws1. is_space x) \<and> (\<forall>x \<in> set ws2. is_space x) \<and>
       (tag = [] \<or> tag = str ''srt'') \<and> 96 \<notin> set body \<longrightarrow>
       fst (translate_chunk rc chunk lang w) = Inr (strip body))"
proof -
  have res: "fst (translate_chunk rc chunk lang w) = Inr (clean_content c)"
    using assms by (simp add: translate_chunk_def Let_def response_text_def)
  have plain: "clean_content c = strip c" if "96 \<notin> set c"
    using that by (rule clean_content_plain)
  have fenced: "clean_content c = strip body"
    if "c = ws1 @ fence @ tag @ [10] @ body @ fence @ ws2"
      and "\<forall>x \<in> set ws1. is_space x" and "\<forall>x \<in> set ws2. is_space x"
      and "tag = [] \<or> tag = str ''srt''" and "96 \<notin> set body"
    for ws1 ws2 tag body
    unfolding that(1) using that(2-5) by (rule clean_content_fenced)
  from res plain fenced show ?thesis by metis
qed

theorem translate_chunk_cleaning_witness:
  "fst (translate_chunk (replies (fence @ str ''srt'' @ [10] @ str ''hola'' @ fence))
     (str ''hello'') (str ''es'') empty_world) = Inr (str ''hola'') \<and>
   fst (translate_chunk (replies (str '' hola '')) (str ''hello'') (str ''es'') empty_world) =
     Inr (str ''hola'')"
proof -
  let ?c = "fence @ str ''srt'' @ [10] @ str ''hola'' @ fence"
  have h: "replies c (requests_of (trace empty_world)) (chunk_request (str ''hello'') (str ''es'')) =
      Inr (Some \<lparr>choices = [\<lparr>message = Some \<lparr>content = Some (Str c)\<rparr>\<rparr>]\<rparr>)" for c
    by (simp add: replies_def answer_def)
  have sel: "choices \<lparr>choices = [\<lparr>message = Some \<lparr>content = Some (Str c)\<rparr>\<rparr>]\<rparr> =
      \<lparr>message = Some \<lparr>content = Some (Str c)\<rparr>\<rparr> # []"
    "message \<lparr>message = Some \<lparr>content = Some (Str c)\<rparr>\<rparr> = Some \<lparr>content = Some (Str c)\<rparr>"
    "content \<lparr>content = Some (Str c)\<rparr> = Some (Str c)" for c
    by simp_all
  have ne: "?c \<noteq> []" "str '' hola '' \<noteq> []" by (simp_all add: fence_def str_def)
  have form: "?c = [] @ fence @ str ''srt'' @ [10] @ str ''hola'' @ fence @ [] \<and>
      (\<forall>x \<in> set []. is_space x) \<and> (\<forall>x \<in> set []. is_space x) \<and>
      (str ''srt'' = [] \<or> str ''srt'' = str ''srt'') \<and> 96 \<notin> set (str ''hola'')"
    by (simp add: str_def)
  have plain: "96 \<notin> set (str '' hola '')" by (simp add: str_def)
  have s1: "strip (str ''hola'') = str ''hola''" by (simp add: strip_def str_def is_space_def)
  have s2: "strip (str '' hola '') = str ''hola''" by (simp add: strip_def str_def is_space_def)
  note t1 = translate_chunk_cleaning [where rc = "replies ?c" and w = empty_world
      and chunk = "str ''hello''" and lang = "str ''es''" and c = ?c,
      OF h [of ?c] sel [of ?c] ne(1), THEN conjunct2, THEN conjunct2,
      THEN spec, THEN spec, THEN spec, THEN spec, THEN mp, OF form]
  note t2 = translate_chunk_cleaning [where rc = "replies (str '' hola '')" and w = empty_world
      and chunk = "str ''hello''" and lang = "str ''es''" and c = "str '' hola ''",
      OF h [of "str '' hola ''"] sel [of "str '' hola ''"] ne(2),
      THEN conjunct2, THEN conjunct1, THEN mp, OF plain]
  from t1 t2 show ?thesis by (simp only: s1 s2)
qed

text \<open>
  Claim C8 as stated fails in two ways: three backticks inside the text are removed as
  well, so the inner content is changed; and of a fence with another language tag only
  the backticks are removed, the tag stays.
\<close>

theorem translate_chunk_inner_fence:
  "fst (translate_chunk (replies (str ''uno '' @ fence @ str '' dos'')) (str ''one two'') (str ''es'')
     empty_world) = Inr (str ''uno  dos'') \<and>
   str ''uno  dos'' \<noteq> str ''uno '' @ fence @ str '' dos'' \<and>
   fst (translate_chunk (replies (fence @ str ''text'' @ [10] @ str ''hola'' @ [10] @ fence))
     (str ''hello'') (str ''es'') empty_world) = Inr (str ''text'' @ [10] @ str ''hola'')"
  by (simp add: translate_chunk_def Let_def replies_def answer_def response_text_def
      clean_content_def strip_def replace_def fence_def fence_srt_def str_def is_space_def)

section \<open>The output path\<close>

lemma split_on_no_sep_id: "sep \<notin> set x \<Longrightarrow> split_on sep x = [x]"
  by (induction x) simp_all

lemma split_on_append_sep:
  "sep \<notin> set x \<Longrightarrow> split_on sep (x @ sep # rest) = x # split_on sep rest"
  by (induction x) simp_all

lemma split_on_join:
  "ps \<noteq> [] \<Longrightarrow> \<forall>x \<in> set ps. sep \<notin> set x \<Longrightarrow> split_on sep (join [sep] ps) = ps"
proof (induction "[sep]" ps rule: join.induct)
  case 1
  then show ?case by simp
next
  case (2 x)
  then show ?case by (simp add: split_on_no_sep_id)
next
  case (3 x y ys)
  then show ?case by (simp add: split_on_append_sep)
qed

lemma hd_join:
  "ps \<noteq> [] \<Longrightarrow> hd ps \<noteq> [] \<Longrightarrow> join sep ps \<noteq> [] \<and> hd (join sep ps) = hd (hd ps)"
  by (induction sep ps rule: join.induct) simp_all

lemma proot_Path: "proot (Path s) = [] \<or> proot (Path s) = [47] \<or> proot (Path s) = [47, 47]"
proof (cases s)
  case Nil
  then show ?thesis by (simp add: Path_def)
next
  case (Cons a s1)
  show ?thesis
  proof (cases s1)
    case Nil
    with Cons show ?thesis by (simp add: Path_def)
  next
    case c2: (Cons b s2)
    with Cons show ?thesis by (simp add: Path_def)
  qed
qed

lemma Path_relative:
  "take 1 s \<noteq> [47] \<Longrightarrow>
   Path s = \<lparr>proot = [], parts = filter (\<lambda>x. x \<noteq> [] \<and> x \<noteq> [46]) (split_on 47 s)\<rparr>"
  by (simp add: Path_def)

lemma Path_rooted:
  "take 1 s \<noteq> [47] \<Longrightarrow>
   Path (47 # s) = \<lparr>proot = [47], parts = filter (\<lambda>x. x \<noteq> [] \<and> x \<noteq> [46]) (split_on 47 s)\<rparr>"
  by (simp add: Path_def)

lemma Path_two_slashes:
  "take 1 s \<noteq> [47] \<Longrightarrow>
   Path (47 # 47 # s) =
     \<lparr>proot = [47, 47], parts = filter (\<lambda>x. x \<noteq> [] \<and> x \<noteq> [46]) (split_on 47 s)\<rparr>"
  by (simp add: Path_def)

lemma Path_path_str:
  assumes root: "proot p = [] \<or> proot p = [47] \<or> proot p = [47, 47]"
    and ne: "parts p \<noteq> []"
    and ok: "\<forall>x \<in> set (parts p). 47 \<notin> set x \<and> x \<noteq> [] \<and> x \<noteq> [46]"
  shows "Path (path_str p) = \<lparr>proot = proot p, parts = parts p\<rparr>"
proof -
  let ?j = "join [47] (parts p)"
  from ne ok have "hd (parts p) \<noteq> []" and "47 \<notin> set (hd (parts p))" by simp_all
  with hd_join [OF ne, of "[47]"] have j: "?j \<noteq> []" "hd ?j \<noteq> 47"
    by (simp_all, metis hd_in_set)
  then have t: "take 1 ?j \<noteq> [47]" by (cases ?j) auto
  have sp: "split_on 47 ?j = parts p"
    using ne ok by (simp add: split_on_join)
  have fl: "filter (\<lambda>x. x \<noteq> [] \<and> x \<noteq> [46]) (parts p) = parts p"
    using ok by (simp add: filter_id_conv)
  have str: "path_str p = proot p @ ?j" using ne by (simp add: path_str_def)
  from root show ?thesis
  proof (elim disjE)
    assume r: "proot p = []"
    then have "path_str p = ?j" by (simp add: str)
    then show ?thesis by (simp only: Path_relative [OF t] sp fl r)
  next
    assume r: "proot p = [47]"
    then have "path_str p = 47 # ?j" by (simp add: str)
    then show ?thesis by (simp only: Path_rooted [OF t] sp fl r)
  next
    assume r: "proot p = [47, 47]"
    then have "path_str p = 47 # 47 # ?j" by (simp add: str)
    then show ?thesis by (simp only: Path_two_slashes [OF t] sp fl r)
  qed
qed


lemma translate_success:
  assumes "translate rc srt_path target_lang w = (Inr out, w')"
  obtains lang original tcs w3 p where
    "target_lang = Some lang" and "lang \<noteq> []" and "fs w srt_path = Some original"
    and "translate_loop rc lang (length (chunk_text (universal_newlines original) MAX_CHARS_PER_CHUNK)) 1
            (chunk_text (universal_newlines original) MAX_CHARS_PER_CHUNK) []
            (print (Total_chunks (length (chunk_text (universal_newlines original) MAX_CHARS_PER_CHUNK)))
              (print Chunking (emit (Opened_for_reading srt_path) (print Reading_file w)))) =
          (Inr tcs, w3)"
    and "with_name (Path srt_path) (output_name lang srt_path) = Inr p"
    and "out = path_str p"
    and "w' = print (Done_saved_to out)
           (emit (Written out (join [10] (map strip tcs)))
             ((print Rebuilding_file w3)\<lparr>fs :=
               (fs (print Rebuilding_file w3))(out \<mapsto> join [10] (map strip tcs))\<rparr>))"
proof -
  from assms obtain original where original: "fs w srt_path = Some original"
    by (cases "fs w srt_path") (simp_all add: translate_def)
  from assms original obtain lang where lang: "target_lang = Some lang" "lang \<noteq> []"
    by (cases target_lang) (auto simp: translate_def split: if_splits)
  let ?chunks = "chunk_text (universal_newlines original) MAX_CHARS_PER_CHUNK"
  let ?w2 = "print (Total_chunks (length ?chunks))
      (print Chunking (emit (Opened_for_reading srt_path) (print Reading_file w)))"
  obtain r3 w3 where loop: "translate_loop rc lang (length ?chunks) 1 ?chunks [] ?w2 = (r3, w3)"
    by (cases "translate_loop rc lang (length ?chunks) 1 ?chunks [] ?w2")
  note unf = assms [unfolded lang(1) translate_existing [OF original lang(2)] loop]
  from unf obtain tcs where tcs: "r3 = Inr tcs" by (cases r3) simp_all
  obtain p where p: "with_name (Path srt_path) (output_name lang srt_path) = Inr p"
    using unf tcs by (cases "with_name (Path srt_path) (output_name lang srt_path)") simp_all
  obtain r5 w5 where wr: "write_file (path_str p) (join [10] (map strip tcs))
      (print Rebuilding_file w3) = (r5, w5)"
    by (cases "write_file (path_str p) (join [10] (map strip tcs)) (print Rebuilding_file w3)")
  from unf tcs p wr obtain u where r5: "r5 = Inr u" by (cases r5) simp_all
  from unf tcs p wr r5 have out: "out = path_str p" and w5: "w' = print (Done_saved_to out) w5"
    by auto
  from write_file_success [OF wr [unfolded r5]] out w5
  have "w' = print (Done_saved_to out)
           (emit (Written out (join [10] (map strip tcs)))
             ((print Rebuilding_file w3)\<lparr>fs :=
               (fs (print Rebuilding_file w3))(out \<mapsto> join [10] (map strip tcs))\<rparr>))"
    by simp
  with out that [OF lang original loop [unfolded tcs] p] show thesis by blast
qed

text \<open>
  Claim C7.  When the pipeline returns a path, a language code was given, the returned
  path parses to the directory of the input path followed by the name made of the
  language code, a dot, the stem of the input name and \<open>.srt\<close>, and the run wrote
  exactly one file, at that path.  For \<open>movie.srt\<close> and \<open>fr\<close> the path is
  \<open>fr.movie.srt\<close>.
\<close>

theorem translate_output_path:
  assumes "translate rc srt_path target_lang w = (Inr out, w')"
  shows "\<exists>lang. target_lang = Some lang \<and>
    parent (Path out) = parent (Path srt_path) \<and>
    name (Path out) = lang @ str ''.'' @ stem (Path srt_path) @ str ''.srt'' \<and>
    (\<exists>text. fs w' = (fs w)(out \<mapsto> text) \<and>
       writes_of (trace w') = writes_of (trace w) @ [(out, text)])"
proof -
  from assms obtain lang original tcs w3 p where
    lang: "target_lang = Some lang" "lang \<noteq> []" and original: "fs w srt_path = Some original"
    and loop: "translate_loop rc lang (length (chunk_text (universal_newlines original) MAX_CHARS_PER_CHUNK)) 1
            (chunk_text (universal_newlines original) MAX_CHARS_PER_CHUNK) []
            (print (Total_chunks (length (chunk_text (universal_newlines original) MAX_CHARS_PER_CHUNK)))
              (print Chunking (emit (Opened_for_reading srt_path) (print Reading_file w)))) =
          (Inr tcs, w3)"
    and wn: "with_name (Path srt_path) (output_name lang srt_path) = Inr p"
    and out: "out = path_str p"
    and w': "w' = print (Done_saved_to out)
           (emit (Written out (join [10] (map strip tcs)))
             ((print Rebuilding_file w3)\<lparr>fs :=
               (fs (print Rebuilding_file w3))(out \<mapsto> join [10] (map strip tcs))\<rparr>))"
    by (rule translate_success)
  let ?P = "Path srt_path"
  let ?new = "output_name lang srt_path"
  from wn have nm: "name ?P \<noteq> []" and new: "?new \<noteq> []" "47 \<notin> set ?new" "?new \<noteq> [46]"
    and p: "p = ?P\<lparr>parts := butlast (parts ?P) @ [?new]\<rparr>"
    by (auto simp: with_name_def split: if_splits)
  have ok: "\<forall>x \<in> set (parts p). 47 \<notin> set x \<and> x \<noteq> [] \<and> x \<noteq> [46]"
  proof
    fix x assume "x \<in> set (parts p)"
    then have "x \<in> set (butlast (parts ?P)) \<or> x = ?new" by (auto simp: p)
    then show "47 \<notin> set x \<and> x \<noteq> [] \<and> x \<noteq> [46]"
    proof
      assume "x \<in> set (butlast (parts ?P))"
      then have "x \<in> set (parts ?P)" by (rule in_set_butlastD)
      then show ?thesis by (rule parts_no_sep)
    next
      assume "x = ?new"
      with new show ?thesis by simp
    qed
  qed
  have "Path (path_str p) = \<lparr>proot = proot p, parts = parts p\<rparr>"
  proof (rule Path_path_str [OF _ _ ok])
    show "proot p = [] \<or> proot p = [47] \<or> proot p = [47, 47]"
      using proot_Path [of srt_path] by (simp add: p)
    show "parts p \<noteq> []" by (simp add: p)
  qed
  then have rt: "Path out = \<lparr>proot = proot ?P, parts = butlast (parts ?P) @ [?new]\<rparr>"
    by (simp add: out p)
  have a: "parent (Path out) = parent ?P" by (simp add: rt parent_def)
  have b: "name (Path out) = lang @ str ''.'' @ stem ?P @ str ''.srt''"
    by (simp add: rt name_def output_name_def)
  note k = translate_loop_keeps [OF loop]
  have c: "fs w' = (fs w)(out \<mapsto> join [10] (map strip tcs))"
    using k by (simp add: w' print_def write_file_def emit_def)
  have d: "writes_of (trace w') = writes_of (trace w) @ [(out, join [10] (map strip tcs))]"
    using k by (simp add: w' print_def write_file_def emit_def writes_of_append)
  from lang(1) a b c d show ?thesis by blast
qed


lemma translate_movie_fr:
  "fst (translate (replies (str ''hola'')) (str ''movie.srt'') (Some (str ''fr''))
     (movie_world (str ''hello''))) = Inr (str ''fr.movie.srt'')"
  by (simp add: eval_defs translate_turn_def translate_chunk_def replies_def answer_def
      response_text_def clean_content_def replace_def strip_def fence_def fence_srt_def
      is_space_def is_linebreak_def sleep_def MAX_CHARS_PER_CHUNK_def)

theorem translate_output_path_witness:
  "fst (translate (replies (str ''hola'')) (str ''movie.srt'') (Some (str ''fr''))
     (movie_world (str ''hello''))) = Inr (str ''fr.movie.srt'') \<and>
   parent (Path (str ''fr.movie.srt'')) = parent (Path (str ''movie.srt'')) \<and>
   name (Path (str ''fr.movie.srt'')) = str ''fr'' @ str ''.'' @ stem (Path (str ''movie.srt'')) @ str ''.srt''"
proof -
  let ?run = "translate (replies (str ''hola'')) (str ''movie.srt'') (Some (str ''fr''))
     (movie_world (str ''hello''))"
  have h: "?run = (Inr (str ''fr.movie.srt''), snd ?run)"
    using translate_movie_fr by (simp add: prod_eq_iff)
  from translate_output_path [OF h] obtain lang where
    "Some (str ''fr'') = Some lang"
    and "parent (Path (str ''fr.movie.srt'')) = parent (Path (str ''movie.srt''))"
    and "name (Path (str ''fr.movie.srt'')) = lang @ str ''.'' @ stem (Path (str ''movie.srt'')) @ str ''.srt''"
    by blast
  with translate_movie_fr show ?thesis by simp
qed

section \<open>The order of the batch\<close>













end
